theory Spec2Isabelle
  imports Main
begin

section \<open>JavaScript values read by \<open>check_live.js\<close>\<close>

text \<open>
  Strings are sequences of code units. The model keeps the code units below 256 (the
  Latin-1 range), which is what \<^typ>\<open>char\<close> holds; a string with a code unit
  beyond that range is outside the model. Numbers are the integers (what \<open>Date.now()\<close>,
  \<open>expires_in\<close> and a whole-numbered spreadsheet cell are); fractions, \<open>NaN\<close> and the
  infinities are outside the model.
\<close>

datatype js_error = Error string

subsection \<open>\<open>String.prototype.trim\<close> and \<open>toLowerCase\<close>\<close>

text \<open>
  The white space and line terminators of ECMAScript below code unit 256: TAB, LF, VT,
  FF, CR, SPACE and NO-BREAK SPACE.
\<close>

definition is_white_space :: "char \<Rightarrow> bool" where
  "is_white_space c =
     (c = CHR 0x09 \<or> c = CHR 0x0A \<or> c = CHR 0x0B \<or> c = CHR 0x0C \<or> c = CHR 0x0D \<or>
      c = CHR 0x20 \<or> c = CHR 0xA0)"

definition trim :: "string \<Rightarrow> string" where
  "trim s = rev (dropWhile is_white_space (rev (dropWhile is_white_space s)))"

text \<open>
  Lower case below code unit 256: \<open>A\<close>..\<open>Z\<close> and the accented capitals
  \<open>0xC0\<close>..\<open>0xDE\<close> (but not the multiplication sign \<open>0xD7\<close>) move up by 32.
\<close>

definition lower_char :: "char \<Rightarrow> char" where
  "lower_char c =
     (let n = (of_char c :: nat) in
      if (65 \<le> n \<and> n \<le> 90) \<or> (192 \<le> n \<and> n \<le> 222 \<and> n \<noteq> 215)
      then char_of (n + 32) else c)"

definition toLowerCase :: "string \<Rightarrow> string" where
  "toLowerCase s = map lower_char s"

subsection \<open>Spreadsheet cells\<close>

text \<open>
  What \<open>XLSX.utils.sheet_to_json(sh, {header: 1})\<close> puts in a row array: a string, a
  number, a boolean, \<open>null\<close>, or nothing (\<open>undefined\<close>, a hole or an index past the
  row's end).
\<close>

datatype cell =
    CString string
  | CNumber int
  | CBoolean bool
  | CNull
  | CUndefined

text \<open>\<open>rows[i][k]\<close>: reading past the end of a JavaScript array gives \<open>undefined\<close>.\<close>

definition cell_at :: "cell list \<Rightarrow> nat \<Rightarrow> cell" where
  "cell_at row k = (if k < length row then row ! k else CUndefined)"

text \<open>Truthiness, as \<open>||\<close> tests it.\<close>

fun truthy :: "cell \<Rightarrow> bool" where
  "truthy (CString s) = (s \<noteq> [])"
| "truthy (CNumber n) = (n \<noteq> 0)"
| "truthy (CBoolean b) = b"
| "truthy CNull = False"
| "truthy CUndefined = False"

text \<open>\<open>x || ""\<close>\<close>

definition or_empty :: "cell \<Rightarrow> cell" where
  "or_empty x = (if truthy x then x else CString [])"

text \<open>
  Decimal digits of a natural number, as \<open>Number.prototype.toString\<close> prints an integer
  below \<open>10^21\<close>.
\<close>

fun digits :: "nat \<Rightarrow> string" where
  "digits n = (if n < 10 then [char_of (48 + n)] else digits (n div 10) @ [char_of (48 + n mod 10)])"

declare digits.simps [simp del]

text \<open>
  \<open>x.toString()\<close>. On \<open>null\<close> and \<open>undefined\<close> the property access raises a
  \<open>TypeError\<close>.
\<close>

fun toString :: "cell \<Rightarrow> js_error + string" where
  "toString (CString s) = Inr s"
| "toString (CNumber n) = Inr (if n < 0 then CHR ''-'' # digits (nat (- n)) else digits (nat n))"
| "toString (CBoolean b) = Inr (if b then ''true'' else ''false'')"
| "toString CNull = Inl (Error ''Cannot read properties of null (reading 'toString')'')"
| "toString CUndefined = Inl (Error ''Cannot read properties of undefined (reading 'toString')'')"

section \<open>Roster Loader: \<open>loadUsernames\<close>\<close>

text \<open>
  One pass of the loop body (lines 50 to 54) on the row \<open>rows[i]\<close>, with \<open>names\<close> the
  array built so far.
\<close>

definition row_step :: "cell list \<Rightarrow> string list \<Rightarrow> js_error + string list" where
  "row_step row names =
     (case toString (or_empty (cell_at row 0)) of
        Inl e \<Rightarrow> Inl e
      | Inr a \<Rightarrow>
          (let username = trim a in
           case toString (or_empty (cell_at row 4)) of
             Inl e \<Rightarrow> Inl e
           | Inr b \<Rightarrow>
               (let recent = toLowerCase (trim b) in
                if username \<noteq> [] \<and> recent \<noteq> [] \<and> recent \<noteq> ''no'' \<and> recent \<noteq> ''false''
                then Inr (names @ [username])
                else Inr names)))"

text \<open>\<open>for (let i = 1; i < rows.length; i++) { ... }\<close>, then \<open>return names\<close>.\<close>

function loadUsernames_loop :: "cell list list \<Rightarrow> nat \<Rightarrow> string list \<Rightarrow> js_error + string list" where
  "loadUsernames_loop rows i names =
     (if i < length rows
      then (case row_step (rows ! i) names of
              Inl e \<Rightarrow> Inl e
            | Inr names' \<Rightarrow> loadUsernames_loop rows (i + 1) names')
      else Inr names)"
  by pat_completeness auto
termination
  by (relation "measure (\<lambda>(rows, i, names). length rows - i)") auto

declare loadUsernames_loop.simps [simp del]

text \<open>
  \<open>loadUsernames\<close>. Its argument is the outcome of lines 44 to 46 (reading the workbook
  and turning its first sheet into an array of row arrays): the raised error when the
  file is missing or malformed, the rows otherwise.
\<close>

definition loadUsernames :: "js_error + cell list list \<Rightarrow> js_error + string list" where
  "loadUsernames src =
     (case src of
        Inl e \<Rightarrow> Inl e
      | Inr rows \<Rightarrow> loadUsernames_loop rows 1 [])"

text \<open>
  The roster the specification describes: the identifier is column A and the inclusion
  flag is column E, each coerced to a trimmed string, where the coercion is
  \<open>(x || "").toString()\<close>.
\<close>

fun coerce_string :: "cell \<Rightarrow> string" where
  "coerce_string (CString s) = s"
| "coerce_string (CNumber n) =
     (if n = 0 then [] else if n < 0 then CHR ''-'' # digits (nat (- n)) else digits (nat n))"
| "coerce_string (CBoolean b) = (if b then ''true'' else [])"
| "coerce_string CNull = []"
| "coerce_string CUndefined = []"

definition row_identifier :: "cell list \<Rightarrow> string" where
  "row_identifier row = trim (coerce_string (cell_at row 0))"

definition row_flag :: "cell list \<Rightarrow> string" where
  "row_flag row = trim (coerce_string (cell_at row 4))"

definition included :: "cell list \<Rightarrow> bool" where
  "included row =
     (row_identifier row \<noteq> [] \<and> row_flag row \<noteq> [] \<and>
      toLowerCase (row_flag row) \<noteq> ''no'' \<and> toLowerCase (row_flag row) \<noteq> ''false'')"

text \<open>A sheet row with the identifier in column A and the flag in column E.\<close>

definition sheet_row :: "cell \<Rightarrow> cell \<Rightarrow> cell list" where
  "sheet_row a e = [a, CUndefined, CUndefined, CUndefined, e]"

section \<open>Config Resolver: the initialisation of \<open>CONFIG\<close>\<close>

record config =
  twitch_client_id :: string
  twitch_client_secret :: string

text \<open>What the program prints, by statement rather than by text.\<close>

datatype console_event =
    ConfigWarning
  | RefreshedToken
  | WroteFile nat
  | NoValidStreamers
  | ErrorMessage string

text \<open>
  A string that may be absent (\<open>undefined\<close>): an environment variable, a property of a
  parsed JSON body. \<open>truthy_string\<close> keeps it when it is truthy, that is present and
  not empty.
\<close>

definition truthy_string :: "string option \<Rightarrow> string option" where
  "truthy_string v = (case v of None \<Rightarrow> None | Some s \<Rightarrow> if s = [] then None else Some s)"

definition initial_CONFIG :: config where
  "initial_CONFIG = \<lparr>twitch_client_id = [], twitch_client_secret = []\<rparr>"

text \<open>
  The body of the \<open>try\<close> (lines 13 to 19). \<open>env_id\<close> and \<open>env_secret\<close> are
  \<open>process.env.TWITCH_CLIENT_ID\<close> and \<open>process.env.TWITCH_CLIENT_SECRET\<close>;
  \<open>config_json\<close> is the outcome of \<open>JSON.parse(fs.readFileSync("config.json", "utf8"))\<close>,
  the raised error or the parsed object with its two fields.
\<close>

definition CONFIG_try :: "string option \<Rightarrow> string option \<Rightarrow> js_error + config \<Rightarrow> js_error + config" where
  "CONFIG_try env_id env_secret config_json =
     (case truthy_string env_id of
        None \<Rightarrow> config_json
      | Some i \<Rightarrow>
          (case truthy_string env_secret of
             None \<Rightarrow> config_json
           | Some s \<Rightarrow> Inr (initial_CONFIG\<lparr>twitch_client_id := i, twitch_client_secret := s\<rparr>)))"

text \<open>Lines 11 to 22: the value of \<open>CONFIG\<close> after start-up, and what was printed.\<close>

definition CONFIG :: "string option \<Rightarrow> string option \<Rightarrow> js_error + config \<Rightarrow> config \<times> console_event list" where
  "CONFIG env_id env_secret config_json =
     (case CONFIG_try env_id env_secret config_json of
        Inr c \<Rightarrow> (c, [])
      | Inl err \<Rightarrow> (initial_CONFIG, [ConfigWarning]))"

text \<open>
  The specification's words for the sources: the environment is usable when both
  variables are set and non-empty; the file is usable when it is read and parsed and both
  of its fields are non-empty.
\<close>

definition env_usable :: "string option \<Rightarrow> string option \<Rightarrow> bool" where
  "env_usable env_id env_secret = (truthy_string env_id \<noteq> None \<and> truthy_string env_secret \<noteq> None)"

definition file_usable :: "js_error + config \<Rightarrow> bool" where
  "file_usable config_json =
     (case config_json of
        Inl e \<Rightarrow> False
      | Inr c \<Rightarrow> twitch_client_id c \<noteq> [] \<and> twitch_client_secret c \<noteq> [])"

section \<open>The process state\<close>

record token_cache =
  token :: "string option"
  expiry :: int

text \<open>
  A parsed JSON response body, through the properties the program reads:
  \<open>access_token\<close> and \<open>expires_in\<close> (the token endpoint), \<open>data\<close> (the streams
  endpoint; \<open>None\<close> when the body has no such property), and the text
  \<open>JSON.stringify\<close> gives for the body.
\<close>

record stream_entry =
  s_user_name :: "string option"
  s_title :: "string option"
  s_game_name :: "string option"
  s_started_at :: "string option"

record json_body =
  access_token :: "string option"
  expires_in :: int
  data :: "stream_entry list option"
  json_text :: string

record live_record =
  username :: "string option"
  title :: string
  game :: string
  started_at :: "string option"

record snapshot =
  timestamp :: string
  live :: "live_record list"

text \<open>
  An HTTP request, by its parts: the POST to the token endpoint with the client
  identifier and secret, and the GET to the streams endpoint with its \<open>user_login\<close>
  parameters, the \<open>Client-ID\<close> header and the bearer token.
\<close>

datatype request =
    TokenRequest string string
  | StreamsRequest "string list" string string

fun is_streams_request :: "request \<Rightarrow> bool" where
  "is_streams_request (StreamsRequest batch cid tok) = True"
| "is_streams_request (TokenRequest cid sec) = False"

text \<open>
  The state one run reads and writes: the cache slot, the requests sent so far (oldest
  first), the content of \<open>live.json\<close> (\<open>None\<close> when there is no such file), the
  console and \<open>process.exitCode\<close>.
\<close>

record state =
  tokenCache :: token_cache
  requests :: "request list"
  outputFile :: "snapshot option"
  console :: "console_event list"
  exitCode :: nat

definition initial_state :: state where
  "initial_state =
     \<lparr>tokenCache = \<lparr>token = None, expiry = 0\<rparr>, requests = [], outputFile = None,
      console = [], exitCode = 0\<rparr>"

section \<open>Token Cache: \<open>getToken\<close>\<close>

text \<open>\<open>tokenCache.token && now < tokenCache.expiry\<close>, with the token when it holds.\<close>

definition cached_token :: "token_cache \<Rightarrow> int \<Rightarrow> string option" where
  "cached_token c now = (if now < expiry c then truthy_string (token c) else None)"

text \<open>
  The integers a JavaScript number holds exactly: on them, and as long as every
  intermediate result is one of them, the program's floating-point \<open>+\<close>, \<open>-\<close> and \<open>*\<close>
  are the integer operations.
\<close>

definition safe_integer :: "int \<Rightarrow> bool" where
  "safe_integer n = (\<bar>n\<bar> \<le> 2 ^ 53)"

text \<open>
  \<open>getToken\<close>. \<open>now\<close> is what \<open>Date.now()\<close> returns on line 28; \<open>reply\<close> is what
  the token endpoint answers if it is asked (the error raised by \<open>fetch\<close> or by
  \<open>res.json()\<close>, or the parsed body). The expiry of line 37 is written with integer
  arithmetic, which is the program's arithmetic on safe integers only; beyond them the
  program rounds, and what it stores is outside the model.
\<close>

definition getToken :: "config \<Rightarrow> int \<Rightarrow> js_error + json_body \<Rightarrow> state \<Rightarrow> (js_error + string) \<times> state" where
  "getToken cfg now reply s =
     (case cached_token (tokenCache s) now of
        Some t \<Rightarrow> (Inr t, s)
      | None \<Rightarrow>
          (let s1 = s\<lparr>requests := requests s @
                      [TokenRequest (twitch_client_id cfg) (twitch_client_secret cfg)]\<rparr> in
           case reply of
             Inl e \<Rightarrow> (Inl e, s1)
           | Inr body \<Rightarrow>
               (case truthy_string (access_token body) of
                  None \<Rightarrow> (Inl (Error (''Failed to fetch Twitch token: '' @ json_text body)), s1)
                | Some t \<Rightarrow>
                    (Inr t,
                     s1\<lparr>tokenCache := \<lparr>token = Some t, expiry = now + expires_in body * 1000 - 60000\<rparr>,
                        console := console s1 @ [RefreshedToken]\<rparr>))))"

section \<open>Live-Status Checker: \<open>checkLive\<close>\<close>

text \<open>\<open>xs.slice(a, b)\<close> for \<open>0 \<le> a\<close> and \<open>0 \<le> b\<close>.\<close>

definition slice :: "'a list \<Rightarrow> nat \<Rightarrow> nat \<Rightarrow> 'a list" where
  "slice xs a b = drop a (take b xs)"

text \<open>\<open>v || ""\<close> on a property that may be absent.\<close>

definition or_empty_string :: "string option \<Rightarrow> string" where
  "or_empty_string v = (case truthy_string v of None \<Rightarrow> [] | Some t \<Rightarrow> t)"

text \<open>The object pushed on lines 76 to 81.\<close>

definition live_user :: "stream_entry \<Rightarrow> live_record" where
  "live_user s =
     \<lparr>username = s_user_name s, title = or_empty_string (s_title s),
      game = or_empty_string (s_game_name s), started_at = s_started_at s\<rparr>"

text \<open>Lines 74 to 83: the records of one parsed body pushed on \<open>liveUsers\<close>.\<close>

definition push_batch :: "json_body \<Rightarrow> live_record list \<Rightarrow> live_record list" where
  "push_batch body liveUsers =
     (case data body of
        None \<Rightarrow> liveUsers
      | Some entries \<Rightarrow> foldl (\<lambda>acc s. acc @ [live_user s]) liveUsers entries)"

text \<open>
  The loop of lines 68 to 84. \<open>replies k\<close> is what the streams endpoint answers to the
  \<open>k\<close>-th query of this call, counted from 0: the error raised by \<open>fetch\<close> or by
  \<open>res.json()\<close>, or the parsed body.
\<close>

function checkLive_loop ::
  "config \<Rightarrow> string \<Rightarrow> (nat \<Rightarrow> js_error + json_body) \<Rightarrow> string list \<Rightarrow> nat \<Rightarrow>
   live_record list \<Rightarrow> state \<Rightarrow> (js_error + live_record list) \<times> state" where
  "checkLive_loop cfg tok replies names i liveUsers s =
     (if i < length names
      then (let batch = slice names i (i + 100);
                s1 = s\<lparr>requests := requests s @ [StreamsRequest batch (twitch_client_id cfg) tok]\<rparr> in
            case replies (i div 100) of
              Inl e \<Rightarrow> (Inl e, s1)
            | Inr body \<Rightarrow>
                checkLive_loop cfg tok replies names (i + 100) (push_batch body liveUsers) s1)
      else (Inr liveUsers, s))"
  by pat_completeness auto
termination
  by (relation "measure (\<lambda>(cfg, tok, replies, names, i, liveUsers, s). length names - i)") auto

declare checkLive_loop.simps [simp del]

definition checkLive ::
  "config \<Rightarrow> int \<Rightarrow> js_error + json_body \<Rightarrow> (nat \<Rightarrow> js_error + json_body) \<Rightarrow> string list \<Rightarrow>
   state \<Rightarrow> (js_error + live_record list) \<times> state" where
  "checkLive cfg now token_reply replies names s =
     (case getToken cfg now token_reply s of
        (Inl e, s1) \<Rightarrow> (Inl e, s1)
      | (Inr tok, s1) \<Rightarrow> checkLive_loop cfg tok replies names 0 [] s1)"

text \<open>
  The specification's batches: the roster cut into consecutive pieces of \<open>n\<close>
  identifiers, the last one shorter when the roster's length is no multiple of \<open>n\<close>.
\<close>

function consecutive_batches :: "nat \<Rightarrow> 'a list \<Rightarrow> 'a list list" where
  "consecutive_batches n xs =
     (if n = 0 \<or> xs = [] then [] else take n xs # consecutive_batches n (drop n xs))"
  by pat_completeness auto
termination
  by (relation "measure (\<lambda>(n, xs). length xs)") auto

declare consecutive_batches.simps [simp del]

text \<open>The records one response contributes, as the specification words it.\<close>

definition batch_records :: "json_body \<Rightarrow> live_record list" where
  "batch_records body = (case data body of None \<Rightarrow> [] | Some entries \<Rightarrow> map live_user entries)"

section \<open>Snapshot Writer: \<open>writeJSON\<close>\<close>

text \<open>
  \<open>writeJSON\<close>. \<open>iso_now\<close> is what \<open>new Date().toISOString()\<close> returns on line 90;
  \<open>write_err\<close> is the error \<open>fs.writeFileSync\<close> raises, if it does, and the file
  is then taken to be as it was. The file's content is the snapshot itself, not its
  indented JSON text.
\<close>

definition writeJSON ::
  "string \<Rightarrow> js_error option \<Rightarrow> live_record list \<Rightarrow> state \<Rightarrow> (js_error + snapshot) \<times> state" where
  "writeJSON iso_now write_err liveList s =
     (let out = \<lparr>timestamp = iso_now, live = liveList\<rparr> in
      case write_err of
        Some e \<Rightarrow> (Inl e, s)
      | None \<Rightarrow>
          (Inr out,
           s\<lparr>outputFile := Some out, console := console s @ [WroteFile (length liveList)]\<rparr>))"

section \<open>\<open>main\<close>\<close>

text \<open>
  What one run meets from outside the process: the outcome of reading the sheet, the
  value of \<open>Date.now()\<close> in \<open>getToken\<close>, the answers of the two endpoints, the value
  of \<open>new Date().toISOString()\<close> in \<open>writeJSON\<close> and the error of the write, if any.
\<close>

record run =
  run_sheet :: "js_error + cell list list"
  run_now :: int
  run_token_reply :: "js_error + json_body"
  run_replies :: "nat \<Rightarrow> js_error + json_body"
  run_iso_now :: string
  run_write_err :: "js_error option"

text \<open>The \<open>catch\<close> of lines 108 to 111.\<close>

fun catch_error :: "js_error \<Rightarrow> state \<Rightarrow> state" where
  "catch_error (Error message) s = s\<lparr>console := console s @ [ErrorMessage message], exitCode := 1\<rparr>"

definition main :: "config \<Rightarrow> run \<Rightarrow> state \<Rightarrow> state" where
  "main cfg r s =
     (case loadUsernames (run_sheet r) of
        Inl e \<Rightarrow> catch_error e s
      | Inr names \<Rightarrow>
          if names = [] then s\<lparr>console := console s @ [NoValidStreamers]\<rparr>
          else
            (case checkLive cfg (run_now r) (run_token_reply r) (run_replies r) names s of
               (Inl e, s1) \<Rightarrow> catch_error e s1
             | (Inr liveList, s1) \<Rightarrow>
                 (case writeJSON (run_iso_now r) (run_write_err r) liveList s1 of
                    (Inl e, s2) \<Rightarrow> catch_error e s2
                  | (Inr out, s2) \<Rightarrow> s2)))"

section \<open>Example values\<close>

definition example_config :: config where
  "example_config = \<lparr>twitch_client_id = ''abc'', twitch_client_secret = ''xyz''\<rparr>"

definition granted_body :: json_body where
  "granted_body = \<lparr>access_token = Some ''tok'', expires_in = 3600, data = None, json_text = ''{}''\<rparr>"

definition denied_body :: json_body where
  "denied_body = \<lparr>access_token = None, expires_in = 0, data = None, json_text = ''{}''\<rparr>"

definition alice_entry :: stream_entry where
  "alice_entry =
     \<lparr>s_user_name = Some ''alice'', s_title = Some ''Chess'', s_game_name = Some ''Chess.com'',
      s_started_at = Some ''2024-05-01T10:00:00Z''\<rparr>"

definition bob_entry :: stream_entry where
  "bob_entry =
     \<lparr>s_user_name = Some ''bob'', s_title = None, s_game_name = None,
      s_started_at = Some ''2024-05-01T11:30:00Z''\<rparr>"

text \<open>Answers of the streams endpoint: the second one has no \<open>data\<close>.\<close>

definition example_bodies :: "nat \<Rightarrow> json_body" where
  "example_bodies k =
     (if k = 1 then denied_body
      else \<lparr>access_token = None, expires_in = 0, data = Some [alice_entry, bob_entry],
             json_text = ''{}''\<rparr>)"

text \<open>The state after the first \<open>getToken\<close> of a process, at time 1000.\<close>

definition refreshed_state :: state where
  "refreshed_state =
     initial_state
       \<lparr>requests := [TokenRequest ''abc'' ''xyz''],
        tokenCache := \<lparr>token = Some ''tok'', expiry = 3541000\<rparr>,
        console := [RefreshedToken]\<rparr>"


definition previous_snapshot :: snapshot where
  "previous_snapshot = \<lparr>timestamp = ''2024-05-01T11:55:00.000Z'', live = []\<rparr>"

text \<open>A run whose token request is answered without an access token.\<close>

definition denied_run :: run where
  "denied_run =
     \<lparr>run_sheet = Inr [[], sheet_row (CString ''alice'') (CString ''yes'')],
      run_now = 1000,
      run_token_reply = Inr denied_body,
      run_replies = (\<lambda>k. Inr (example_bodies k)),
      run_iso_now = ''2024-05-01T12:00:00.000Z'',
      run_write_err = None\<rparr>"

section \<open>Properties of the Roster Loader\<close>

subsection \<open>Trimmed strings\<close>

lemma last_dropWhile: "dropWhile P xs \<noteq> [] \<Longrightarrow> last (dropWhile P xs) = last xs"
  by (induction xs) (auto split: if_splits)

lemma trim_Nil: "trim [] = []"
  by (simp add: trim_def)

lemma trim_hd:
  assumes "trim s \<noteq> []"
  shows "\<not> is_white_space (hd (trim s))"
proof -
  let ?d = "dropWhile is_white_space s"
  let ?e = "dropWhile is_white_space (rev ?d)"
  have e: "?e \<noteq> []"
    using assms by (simp add: trim_def)
  have d: "?d \<noteq> []"
  proof
    assume "?d = []"
    then have "?e = []" by (simp only: rev.simps dropWhile.simps)
    with e show False by contradiction
  qed
  have "hd (trim s) = last ?e" by (simp add: trim_def hd_rev)
  also have "\<dots> = last (rev ?d)" using e by (rule last_dropWhile)
  also have "\<dots> = hd ?d" using d by (simp add: last_rev)
  finally show ?thesis using d by (simp add: hd_dropWhile)
qed

lemma trim_last: "trim s \<noteq> [] \<Longrightarrow> \<not> is_white_space (last (trim s))"
  unfolding trim_def by (simp add: hd_dropWhile last_rev)

lemma trim_fixed:
  "t \<noteq> [] \<Longrightarrow> \<not> is_white_space (hd t) \<Longrightarrow> \<not> is_white_space (last t) \<Longrightarrow> trim t = t"
  unfolding trim_def by (metis hd_rev dropWhile_eq_self_iff rev_rev_ident)

lemma trim_trim: "trim (trim s) = trim s"
proof (cases "trim s = []")
  case True
  with trim_Nil show ?thesis by (simp only:)
next
  case False
  then show ?thesis by (simp add: trim_fixed trim_hd trim_last)
qed

lemma toLowerCase_Nil_iff: "toLowerCase s = [] \<longleftrightarrow> s = []"
  by (simp add: toLowerCase_def)

subsection \<open>The loop is a filter\<close>

lemma toString_or_empty: "toString (or_empty c) = Inr (coerce_string c)"
  by (cases c) (simp_all add: or_empty_def)

lemma row_step_included:
  "row_step row names = Inr (if included row then names @ [row_identifier row] else names)"
  by (simp add: row_step_def toString_or_empty included_def row_identifier_def row_flag_def
      toLowerCase_Nil_iff Let_def)

lemma loadUsernames_loop_filter:
  "loadUsernames_loop rows i names =
     Inr (names @ map row_identifier (filter included (drop i rows)))"
proof (induction rows i names rule: loadUsernames_loop.induct)
  case (1 rows i names)
  show ?case
  proof (cases "i < length rows")
    case True
    have d: "drop i rows = rows ! i # drop (Suc i) rows"
      using True by (simp add: Cons_nth_drop_Suc)
    show ?thesis
      using True
        "1.IH" [OF True, of "if included (rows ! i) then names @ [row_identifier (rows ! i)] else names"]
      by (subst loadUsernames_loop.simps) (simp add: row_step_included d)
  next
    case False
    then show ?thesis
      by (subst loadUsernames_loop.simps) simp
  qed
qed

lemma loadUsernames_filter:
  "loadUsernames (Inr rows) = Inr (map row_identifier (filter included (drop 1 rows)))"
  by (simp add: loadUsernames_def loadUsernames_loop_filter)

lemma filter_drop_indices:
  "filter P (drop a xs) = map ((!) xs) (filter (\<lambda>i. P (xs ! i)) [a..<length xs])"
proof -
  have "drop a xs = map ((!) xs) [a..<length xs]"
    by (metis drop_map drop_upt map_nth add.left_neutral)
  then have "filter P (drop a xs) = filter P (map ((!) xs) [a..<length xs])"
    by simp
  then show ?thesis
    by (simp add: filter_map comp_def)
qed

lemmas roster_eval =
  loadUsernames_filter included_def row_identifier_def row_flag_def sheet_row_def
  cell_at_def trim_def is_white_space_def toLowerCase_def lower_char_def char_of_eq_iff

text \<open>
  C1. For every sheet, \<open>loadUsernames\<close> returns the identifiers of exactly those data
  rows (the rows after the header, in their order) whose identifier (column A, coerced to
  a trimmed string) is non-empty and whose inclusion flag (column E, coerced to a trimmed
  string) is non-empty and in lower case neither \<open>no\<close> nor \<open>false\<close>. In particular the
  flags \<open>NO\<close>, \<open>no\<close>, \<open>No\<close>, \<open>nO\<close> and \<open>false\<close> exclude a row, the flags \<open>yes\<close>,
  \<open>1\<close> and \<open>true\<close> include it, and an empty or absent flag excludes it although the
  identifier is there.
\<close>

theorem loadUsernames_inclusion:
  "loadUsernames (Inr rows) = Inr (map row_identifier (filter included (drop 1 rows))) \<and>
   loadUsernames
     (Inr [header,
           sheet_row (CString ''a'') (CString ''NO''), sheet_row (CString ''b'') (CString ''no''),
           sheet_row (CString ''c'') (CString ''No''), sheet_row (CString ''d'') (CString ''nO''),
           sheet_row (CString ''e'') (CString ''false''), sheet_row (CString ''f'') (CString ''yes''),
           sheet_row (CString ''g'') (CString ''1''), sheet_row (CString ''h'') (CString ''true''),
           sheet_row (CString ''i'') (CString ''''), sheet_row (CString ''j'') CUndefined,
           sheet_row (CString '''') (CString ''yes'')])
     = Inr [''f'', ''g'', ''h'']"
proof
  show "loadUsernames (Inr rows) = Inr (map row_identifier (filter included (drop 1 rows)))"
    by (rule loadUsernames_filter)
next
  show "loadUsernames
     (Inr [header,
           sheet_row (CString ''a'') (CString ''NO''), sheet_row (CString ''b'') (CString ''no''),
           sheet_row (CString ''c'') (CString ''No''), sheet_row (CString ''d'') (CString ''nO''),
           sheet_row (CString ''e'') (CString ''false''), sheet_row (CString ''f'') (CString ''yes''),
           sheet_row (CString ''g'') (CString ''1''), sheet_row (CString ''h'') (CString ''true''),
           sheet_row (CString ''i'') (CString ''''), sheet_row (CString ''j'') CUndefined,
           sheet_row (CString '''') (CString ''yes'')])
     = Inr [''f'', ''g'', ''h'']"
    by (simp add: roster_eval)
qed

text \<open>
  The scenario of the specification: the rows \<open>alice\<close>/\<open>yes\<close>, \<open>bob\<close>/\<open>no\<close> and
  \<open>carol\<close>/empty give the roster \<open>alice\<close>.
\<close>

theorem loadUsernames_inclusion_witness:
  "loadUsernames
     (Inr [[CString ''username'', CString ''b'', CString ''c'', CString ''d'', CString ''recent''],
           sheet_row (CString ''alice'') (CString ''yes''),
           sheet_row (CString ''bob'') (CString ''no''),
           sheet_row (CString ''carol'') (CString '''')])
     = Inr [''alice'']"
  using loadUsernames_inclusion
    [of "[[CString ''username'', CString ''b'', CString ''c'', CString ''d'', CString ''recent''],
          sheet_row (CString ''alice'') (CString ''yes''),
          sheet_row (CString ''bob'') (CString ''no''),
          sheet_row (CString ''carol'') (CString '''')]"]
  by (simp add: included_def row_identifier_def row_flag_def sheet_row_def
      cell_at_def trim_def is_white_space_def toLowerCase_def lower_char_def char_of_eq_iff)

text \<open>
  C7. For every sheet, the roster \<open>loadUsernames\<close> returns is no longer than the number
  of data rows; each of its identifiers is a non-empty trimmed string (trimming leaves it
  as it is, and neither its first nor its last character is white space); and the
  identifiers are those of data rows taken at strictly increasing row numbers.
\<close>

theorem loadUsernames_roster:
  "\<exists>names idx.
     loadUsernames (Inr rows) = Inr names \<and>
     length names \<le> length rows - 1 \<and>
     (\<forall>u \<in> set names.
        u \<noteq> [] \<and> trim u = u \<and> \<not> is_white_space (hd u) \<and> \<not> is_white_space (last u)) \<and>
     sorted_wrt (<) idx \<and>
     (\<forall>i \<in> set idx. 1 \<le> i \<and> i < length rows) \<and>
     names = map (\<lambda>i. row_identifier (rows ! i)) idx"
proof -
  let ?idx = "filter (\<lambda>i. included (rows ! i)) [1..<length rows]"
  let ?names = "map row_identifier (filter included (drop 1 rows))"
  have len: "length ?names \<le> length rows - 1"
    using length_filter_le [of included "drop 1 rows"] by simp
  have elems:
    "\<forall>u \<in> set ?names.
       u \<noteq> [] \<and> trim u = u \<and> \<not> is_white_space (hd u) \<and> \<not> is_white_space (last u)"
  proof
    fix u
    assume "u \<in> set ?names"
    then obtain row where row: "included row" and u: "u = row_identifier row"
      by auto
    have t: "u = trim (coerce_string (cell_at row 0))"
      using u by (simp add: row_identifier_def)
    have ne: "u \<noteq> []"
      using row u by (simp add: included_def)
    then have "trim (coerce_string (cell_at row 0)) \<noteq> []"
      using t by simp
    then show "u \<noteq> [] \<and> trim u = u \<and> \<not> is_white_space (hd u) \<and> \<not> is_white_space (last u)"
      using ne t by (simp add: trim_trim trim_hd trim_last)
  qed
  have sorted: "sorted_wrt (<) ?idx"
    by (rule sorted_wrt_filter) (rule sorted_wrt_upt)
  have range: "\<forall>i \<in> set ?idx. 1 \<le> i \<and> i < length rows"
    by simp
  have "?names = map (\<lambda>i. row_identifier (rows ! i)) ?idx"
    by (simp add: filter_drop_indices comp_def)
  with len elems sorted range loadUsernames_filter [of rows] show ?thesis
    by blast
qed

theorem loadUsernames_roster_witness:
  "(\<exists>names idx.
      loadUsernames (Inr [[], sheet_row (CString '' alice '') (CBoolean True), [],
                          sheet_row (CString ''bob'') (CNumber 7)]) = Inr names \<and>
      length names \<le> length [[], sheet_row (CString '' alice '') (CBoolean True), [],
                          sheet_row (CString ''bob'') (CNumber 7)] - 1 \<and>
      (\<forall>u \<in> set names.
         u \<noteq> [] \<and> trim u = u \<and> \<not> is_white_space (hd u) \<and> \<not> is_white_space (last u)) \<and>
      sorted_wrt (<) idx \<and>
      (\<forall>i \<in> set idx. 1 \<le> i \<and> i < length [[], sheet_row (CString '' alice '') (CBoolean True), [],
                          sheet_row (CString ''bob'') (CNumber 7)]) \<and>
      names = map (\<lambda>i. row_identifier ([[], sheet_row (CString '' alice '') (CBoolean True), [],
                          sheet_row (CString ''bob'') (CNumber 7)] ! i)) idx) \<and>
   loadUsernames (Inr [[], sheet_row (CString '' alice '') (CBoolean True), [],
                       sheet_row (CString ''bob'') (CNumber 7)]) = Inr [''alice'', ''bob'']"
proof
  show "\<exists>names idx.
      loadUsernames (Inr [[], sheet_row (CString '' alice '') (CBoolean True), [],
                          sheet_row (CString ''bob'') (CNumber 7)]) = Inr names \<and>
      length names \<le> length [[], sheet_row (CString '' alice '') (CBoolean True), [],
                          sheet_row (CString ''bob'') (CNumber 7)] - 1 \<and>
      (\<forall>u \<in> set names.
         u \<noteq> [] \<and> trim u = u \<and> \<not> is_white_space (hd u) \<and> \<not> is_white_space (last u)) \<and>
      sorted_wrt (<) idx \<and>
      (\<forall>i \<in> set idx. 1 \<le> i \<and> i < length [[], sheet_row (CString '' alice '') (CBoolean True), [],
                          sheet_row (CString ''bob'') (CNumber 7)]) \<and>
      names = map (\<lambda>i. row_identifier ([[], sheet_row (CString '' alice '') (CBoolean True), [],
                          sheet_row (CString ''bob'') (CNumber 7)] ! i)) idx"
    by (rule loadUsernames_roster)
next
  show "loadUsernames (Inr [[], sheet_row (CString '' alice '') (CBoolean True), [],
                       sheet_row (CString ''bob'') (CNumber 7)]) = Inr [''alice'', ''bob'']"
    by (simp add: roster_eval digits.simps)
qed

subsection \<open>Falsy cells\<close>

lemma falsy_not_included:
  assumes "cell_at row 0 = CNumber 0 \<or> cell_at row 0 = CBoolean False \<or>
           cell_at row 4 = CNumber 0 \<or> cell_at row 4 = CBoolean False"
  shows "\<not> included row"
  using assms by (auto simp: included_def row_identifier_def row_flag_def trim_Nil)

text \<open>
  C10. A cell that holds the number 0 or the boolean \<open>false\<close> in column A or in
  column E is replaced by the empty string before it is trimmed, so its row adds nothing
  to the roster, although the cell prints as the non-empty string \<open>0\<close> or \<open>false\<close>:
  the same row with the text \<open>0\<close> or \<open>FALSE\<close> in that cell is included.
\<close>

theorem falsy_cell_excluded:
  "(cell_at row 0 = CNumber 0 \<or> cell_at row 0 = CBoolean False \<or>
    cell_at row 4 = CNumber 0 \<or> cell_at row 4 = CBoolean False \<longrightarrow>
      loadUsernames (Inr (header # before @ row # after)) =
      loadUsernames (Inr (header # before @ after))) \<and>
   or_empty (CNumber 0) = CString [] \<and> or_empty (CBoolean False) = CString [] \<and>
   toString (CNumber 0) = Inr ''0'' \<and> toString (CBoolean False) = Inr ''false'' \<and>
   loadUsernames (Inr [header, sheet_row (CString ''al'') (CNumber 0)]) = Inr [] \<and>
   loadUsernames (Inr [header, sheet_row (CString ''al'') (CString ''0'')]) = Inr [''al''] \<and>
   loadUsernames (Inr [header, sheet_row (CNumber 0) (CString ''yes'')]) = Inr [] \<and>
   loadUsernames (Inr [header, sheet_row (CString ''0'') (CString ''yes'')]) = Inr [''0''] \<and>
   loadUsernames (Inr [header, sheet_row (CBoolean False) (CString ''yes'')]) = Inr [] \<and>
   loadUsernames (Inr [header, sheet_row (CString ''FALSE'') (CString ''yes'')]) = Inr [''FALSE'']"
proof (intro conjI impI)
  assume "cell_at row 0 = CNumber 0 \<or> cell_at row 0 = CBoolean False \<or>
    cell_at row 4 = CNumber 0 \<or> cell_at row 4 = CBoolean False"
  then have "\<not> included row" by (rule falsy_not_included)
  then show "loadUsernames (Inr (header # before @ row # after)) =
      loadUsernames (Inr (header # before @ after))"
    by (simp add: loadUsernames_filter)
qed (simp_all add: roster_eval or_empty_def digits.simps)

theorem falsy_cell_excluded_witness:
  "cell_at (sheet_row (CString ''al'') (CNumber 0)) 4 = CNumber 0 \<and>
   loadUsernames (Inr [[], sheet_row (CString ''zed'') (CString ''yes''),
                       sheet_row (CString ''al'') (CNumber 0),
                       sheet_row (CString ''bob'') (CString ''yes'')]) = Inr [''zed'', ''bob'']"
  using falsy_cell_excluded [of "sheet_row (CString ''al'') (CNumber 0)" "[]"
      "[sheet_row (CString ''zed'') (CString ''yes'')]" "[sheet_row (CString ''bob'') (CString ''yes'')]"]
  by (simp add: roster_eval)

section \<open>Properties of the Config Resolver\<close>

text \<open>
  C9 as stated fails: with no environment variable set and a \<open>config.json\<close> that parses
  and holds two empty strings, neither source is usable, and yet no warning is printed.
\<close>

theorem CONFIG_no_warning_counterexample:
  "\<not> env_usable None None \<and>
   \<not> file_usable (Inr \<lparr>twitch_client_id = [], twitch_client_secret = []\<rparr>) \<and>
   CONFIG None None (Inr \<lparr>twitch_client_id = [], twitch_client_secret = []\<rparr>) =
     (\<lparr>twitch_client_id = [], twitch_client_secret = []\<rparr>, [])"
  by (simp add: env_usable_def file_usable_def CONFIG_def CONFIG_try_def truthy_string_def)

text \<open>
  C9, amended. The Config Resolver never raises. When both environment variables are
  set and non-empty, \<open>CONFIG\<close> holds them and nothing is printed. Otherwise, when
  \<open>config.json\<close> is read and parsed, \<open>CONFIG\<close> is the parsed content as it is and nothing
  is printed; when reading or parsing raises, \<open>CONFIG\<close> keeps the empty credentials and
  the warning is printed.
\<close>

theorem CONFIG_resolution:
  "(\<forall>a b. env_id = Some a \<and> a \<noteq> [] \<and> env_secret = Some b \<and> b \<noteq> [] \<longrightarrow>
      CONFIG env_id env_secret config_json =
        (\<lparr>twitch_client_id = a, twitch_client_secret = b\<rparr>, [])) \<and>
   (\<not> env_usable env_id env_secret \<longrightarrow>
      (\<forall>c. config_json = Inr c \<longrightarrow> CONFIG env_id env_secret config_json = (c, [])) \<and>
      (\<forall>e. config_json = Inl e \<longrightarrow>
         CONFIG env_id env_secret config_json =
           (\<lparr>twitch_client_id = [], twitch_client_secret = []\<rparr>, [ConfigWarning])))"
  by (auto simp: CONFIG_def CONFIG_try_def env_usable_def truthy_string_def initial_CONFIG_def
      split: option.splits)

theorem CONFIG_resolution_witness:
  "\<not> env_usable (Some ''abc'') None \<and>
   CONFIG (Some ''abc'') None (Inl (Error ''ENOENT'')) =
     (\<lparr>twitch_client_id = [], twitch_client_secret = []\<rparr>, [ConfigWarning]) \<and>
   CONFIG (Some ''abc'') (Some ''xyz'') (Inl (Error ''ENOENT'')) =
     (\<lparr>twitch_client_id = ''abc'', twitch_client_secret = ''xyz''\<rparr>, [])"
proof -
  have u: "\<not> env_usable (Some ''abc'') None"
    by (simp add: env_usable_def truthy_string_def)
  from CONFIG_resolution [of "Some ''abc''" None "Inl (Error ''ENOENT'')"] u
  have 1: "CONFIG (Some ''abc'') None (Inl (Error ''ENOENT'')) =
     (\<lparr>twitch_client_id = [], twitch_client_secret = []\<rparr>, [ConfigWarning])"
    by blast
  from CONFIG_resolution [of "Some ''abc''" "Some ''xyz''" "Inl (Error ''ENOENT'')"]
  have 2: "CONFIG (Some ''abc'') (Some ''xyz'') (Inl (Error ''ENOENT'')) =
     (\<lparr>twitch_client_id = ''abc'', twitch_client_secret = ''xyz''\<rparr>, [])"
    by simp
  from u 1 2 show ?thesis by simp
qed

section \<open>Properties of the Token Cache\<close>

lemma cached_token_Some:
  "cached_token c now = Some t \<longleftrightarrow> token c = Some t \<and> t \<noteq> [] \<and> now < expiry c"
  by (auto simp: cached_token_def truthy_string_def split: option.splits if_splits)

lemma cached_token_None:
  "cached_token c now = None \<longleftrightarrow> token c = None \<or> token c = Some [] \<or> expiry c \<le> now"
  by (auto simp: cached_token_def truthy_string_def split: option.splits if_splits)

lemma truthy_string_Some: "truthy_string v = Some t \<longleftrightarrow> v = Some t \<and> t \<noteq> []"
  by (auto simp: truthy_string_def split: option.splits if_splits)

lemma truthy_string_None: "truthy_string v = None \<longleftrightarrow> v = None \<or> v = Some []"
  by (auto simp: truthy_string_def split: option.splits if_splits)

lemma getToken_hit:
  "cached_token (tokenCache s) now = Some t \<Longrightarrow> getToken cfg now reply s = (Inr t, s)"
  by (simp add: getToken_def)

lemma getToken_refresh:
  "cached_token (tokenCache s) now = None \<Longrightarrow> truthy_string (access_token body) = Some t \<Longrightarrow>
   getToken cfg now (Inr body) s =
     (Inr t,
      s\<lparr>requests := requests s @ [TokenRequest (twitch_client_id cfg) (twitch_client_secret cfg)],
        tokenCache := \<lparr>token = Some t, expiry = now + expires_in body * 1000 - 60000\<rparr>,
        console := console s @ [RefreshedToken]\<rparr>)"
  by (simp add: getToken_def Let_def)

lemma getToken_no_access_token:
  "cached_token (tokenCache s) now = None \<Longrightarrow> truthy_string (access_token body) = None \<Longrightarrow>
   getToken cfg now (Inr body) s =
     (Inl (Error (''Failed to fetch Twitch token: '' @ json_text body)),
      s\<lparr>requests := requests s @ [TokenRequest (twitch_client_id cfg) (twitch_client_secret cfg)]\<rparr>)"
  by (simp add: getToken_def Let_def)

text \<open>
  C3. When the cache slot holds a token and the current time is strictly before the
  cached expiry, \<open>getToken\<close> returns that token and leaves the whole state as it was, so
  no request is sent. Consequently, when a first call exchanges the credentials and a
  second call comes before the expiry the first one stored, both return the same token,
  the second changes nothing, and exactly one request to the token endpoint has been
  sent. A token in the slot is never the empty string: \<open>getToken\<close>, the only writer of
  the slot, keeps it so.
\<close>

theorem getToken_reuse:
  "(token (tokenCache s) = Some t \<and> t \<noteq> [] \<and> now < expiry (tokenCache s) \<longrightarrow>
      getToken cfg now reply s = (Inr t, s)) \<and>
   (cached_token (tokenCache s) now1 = None \<and> access_token body = Some t \<and> t \<noteq> [] \<and>
    now2 < now1 + expires_in body * 1000 - 60000 \<longrightarrow>
      fst (getToken cfg now1 (Inr body) s) = Inr t \<and>
      fst (getToken cfg now2 reply2 (snd (getToken cfg now1 (Inr body) s))) = Inr t \<and>
      requests (snd (getToken cfg now2 reply2 (snd (getToken cfg now1 (Inr body) s)))) =
        requests s @ [TokenRequest (twitch_client_id cfg) (twitch_client_secret cfg)] \<and>
      snd (getToken cfg now2 reply2 (snd (getToken cfg now1 (Inr body) s))) =
        snd (getToken cfg now1 (Inr body) s)) \<and>
   (token (tokenCache s) \<noteq> Some [] \<longrightarrow>
      token (tokenCache (snd (getToken cfg now reply s))) \<noteq> Some [])"
proof (intro conjI impI)
  assume "token (tokenCache s) \<noteq> Some []"
  then show "token (tokenCache (snd (getToken cfg now reply s))) \<noteq> Some []"
    by (auto simp: getToken_def Let_def truthy_string_Some split: option.splits sum.splits)
next
  assume "token (tokenCache s) = Some t \<and> t \<noteq> [] \<and> now < expiry (tokenCache s)"
  then have "cached_token (tokenCache s) now = Some t"
    by (simp add: cached_token_Some)
  then show "getToken cfg now reply s = (Inr t, s)"
    by (rule getToken_hit)
next
  assume a: "cached_token (tokenCache s) now1 = None \<and> access_token body = Some t \<and> t \<noteq> [] \<and>
    now2 < now1 + expires_in body * 1000 - 60000"
  let ?s1 = "s\<lparr>requests := requests s @ [TokenRequest (twitch_client_id cfg) (twitch_client_secret cfg)],
        tokenCache := \<lparr>token = Some t, expiry = now1 + expires_in body * 1000 - 60000\<rparr>,
        console := console s @ [RefreshedToken]\<rparr>"
  have t: "truthy_string (access_token body) = Some t"
    using a by (simp add: truthy_string_Some)
  have first: "getToken cfg now1 (Inr body) s = (Inr t, ?s1)"
    using a t by (simp add: getToken_refresh)
  have "cached_token (tokenCache ?s1) now2 = Some t"
    using a by (simp add: cached_token_Some)
  then have second: "getToken cfg now2 reply2 ?s1 = (Inr t, ?s1)"
    by (rule getToken_hit)
  show "fst (getToken cfg now1 (Inr body) s) = Inr t"
    by (simp add: first)
  show "fst (getToken cfg now2 reply2 (snd (getToken cfg now1 (Inr body) s))) = Inr t"
    by (simp add: first second)
  show "requests (snd (getToken cfg now2 reply2 (snd (getToken cfg now1 (Inr body) s)))) =
        requests s @ [TokenRequest (twitch_client_id cfg) (twitch_client_secret cfg)]"
    by (simp add: first second)
  show "snd (getToken cfg now2 reply2 (snd (getToken cfg now1 (Inr body) s))) =
        snd (getToken cfg now1 (Inr body) s)"
    by (simp add: first second)
qed

theorem getToken_reuse_witness:
  "cached_token (tokenCache initial_state) 1000 = None \<and>
   (2000::int) < 1000 + expires_in granted_body * 1000 - 60000 \<and>
   fst (getToken example_config 2000 (Inr denied_body)
         (snd (getToken example_config 1000 (Inr granted_body) initial_state))) = Inr ''tok'' \<and>
   requests (snd (getToken example_config 2000 (Inr denied_body)
         (snd (getToken example_config 1000 (Inr granted_body) initial_state)))) =
     requests initial_state @
     [TokenRequest (twitch_client_id example_config) (twitch_client_secret example_config)]"
proof -
  have h: "cached_token (tokenCache initial_state) 1000 = None \<and>
      access_token granted_body = Some ''tok'' \<and> ''tok'' \<noteq> [] \<and>
      (2000::int) < 1000 + expires_in granted_body * 1000 - 60000"
    by (simp add: cached_token_def initial_state_def granted_body_def)
  from getToken_reuse [of initial_state "''tok''" 1000 example_config "Inr denied_body" 1000
      granted_body 2000 "Inr denied_body"] h
  show ?thesis by blast
qed

text \<open>
  C5. A call of \<open>getToken\<close> that finds no unexpired token in the cache (the slot is
  empty, or the time has reached the expiry) and is answered with an access token sends
  one request to the token endpoint, replaces the cache slot by the new token with the
  expiry \<open>now + expires_in * 1000 - 60000\<close>, \<open>now\<close> being the time read at the start of
  the call, and returns the new token. The expiry is that exact sum whenever \<open>now\<close>, the
  product, the sum and the difference are safe integers, where the program's
  floating-point arithmetic does not round.
\<close>

theorem getToken_refresh_expiry:
  "(cached_token (tokenCache s) now = None \<and> truthy_string (access_token body) = Some t \<and>
    safe_integer now \<and> safe_integer (expires_in body * 1000) \<and>
    safe_integer (now + expires_in body * 1000) \<and>
    safe_integer (now + expires_in body * 1000 - 60000) \<longrightarrow>
      getToken cfg now (Inr body) s =
        (Inr t,
         s\<lparr>requests := requests s @ [TokenRequest (twitch_client_id cfg) (twitch_client_secret cfg)],
           tokenCache := \<lparr>token = Some t, expiry = now + expires_in body * 1000 - 60000\<rparr>,
           console := console s @ [RefreshedToken]\<rparr>)) \<and>
   (expiry (tokenCache s) \<le> now \<longrightarrow> cached_token (tokenCache s) now = None) \<and>
   (token (tokenCache s) = None \<longrightarrow> cached_token (tokenCache s) now = None)"
  by (simp add: getToken_refresh cached_token_None)

theorem getToken_refresh_expiry_witness:
  "expiry (tokenCache (initial_state\<lparr>tokenCache := \<lparr>token = Some ''old'', expiry = 5000\<rparr>\<rparr>)) \<le> 5000 \<and>
   truthy_string (access_token granted_body) = Some ''tok'' \<and>
   safe_integer 5000 \<and> safe_integer (expires_in granted_body * 1000) \<and>
   safe_integer (5000 + expires_in granted_body * 1000) \<and>
   safe_integer (5000 + expires_in granted_body * 1000 - 60000) \<and>
   getToken example_config 5000 (Inr granted_body)
     (initial_state\<lparr>tokenCache := \<lparr>token = Some ''old'', expiry = 5000\<rparr>\<rparr>) =
     (Inr ''tok'',
      initial_state\<lparr>tokenCache := \<lparr>token = Some ''tok'', expiry = 3545000\<rparr>,
        requests := [TokenRequest ''abc'' ''xyz''], console := [RefreshedToken]\<rparr>)"
proof -
  let ?s = "initial_state\<lparr>tokenCache := \<lparr>token = Some ''old'', expiry = 5000\<rparr>\<rparr>"
  have e: "expiry (tokenCache ?s) \<le> 5000"
    by simp
  have t: "truthy_string (access_token granted_body) = Some ''tok''"
    by (simp add: granted_body_def truthy_string_def)
  have b: "safe_integer 5000 \<and> safe_integer (expires_in granted_body * 1000) \<and>
      safe_integer (5000 + expires_in granted_body * 1000) \<and>
      safe_integer (5000 + expires_in granted_body * 1000 - 60000)"
    by (simp add: safe_integer_def granted_body_def)
  from getToken_refresh_expiry [of ?s 5000 granted_body "''tok''" example_config] e t b
  have "getToken example_config 5000 (Inr granted_body) ?s =
        (Inr ''tok'',
         ?s\<lparr>requests := requests ?s @
               [TokenRequest (twitch_client_id example_config) (twitch_client_secret example_config)],
           tokenCache := \<lparr>token = Some ''tok'', expiry = 5000 + expires_in granted_body * 1000 - 60000\<rparr>,
           console := console ?s @ [RefreshedToken]\<rparr>)"
    by blast
  then show ?thesis
    using e t b by (simp add: initial_state_def granted_body_def example_config_def)
qed

section \<open>Properties of the Live-Status Checker\<close>

subsection \<open>Batches\<close>

lemma batches_Nil: "consecutive_batches n [] = []"
  by (simp add: consecutive_batches.simps)

lemma batches_Cons:
  "0 < n \<Longrightarrow> xs \<noteq> [] \<Longrightarrow>
   consecutive_batches n xs = take n xs # consecutive_batches n (drop n xs)"
  by (subst consecutive_batches.simps) simp

lemma concat_batches: "0 < n \<Longrightarrow> concat (consecutive_batches n xs) = xs"
proof (induction n xs rule: consecutive_batches.induct)
  case (1 n xs)
  show ?case
  proof (cases "xs = []")
    case True
    then show ?thesis by (simp add: batches_Nil)
  next
    case False
    with 1 show ?thesis by (simp add: batches_Cons)
  qed
qed

lemma batches_sizes:
  "0 < n \<Longrightarrow> b \<in> set (consecutive_batches n xs) \<Longrightarrow> b \<noteq> [] \<and> length b \<le> n"
proof (induction n xs rule: consecutive_batches.induct)
  case (1 n xs)
  show ?case
  proof (cases "xs = []")
    case True
    with "1.prems" show ?thesis by (simp add: batches_Nil)
  next
    case False
    with 1 show ?thesis by (auto simp: batches_Cons)
  qed
qed

lemma length_batches: "0 < n \<Longrightarrow> length (consecutive_batches n xs) = (length xs + n - 1) div n"
proof (induction n xs rule: consecutive_batches.induct)
  case (1 n xs)
  show ?case
  proof (cases "xs = []")
    case True
    with "1.prems" show ?thesis by (simp add: batches_Nil)
  next
    case False
    then have pos: "0 < length xs" by simp
    have ih: "length (consecutive_batches n (drop n xs)) = (length xs - n + n - 1) div n"
      using 1 False by simp
    show ?thesis
    proof (cases "n \<le> length xs")
      case True
      have "length xs + n - 1 = (length xs - n + n - 1) + n"
        using True "1.prems" by arith
      then have "(length xs + n - 1) div n = Suc ((length xs - n + n - 1) div n)"
        using "1.prems" by (simp only: div_add_self2)
      then show ?thesis using ih False "1.prems" by (simp add: batches_Cons)
    next
      case False
      have "(length xs + n - 1) div n = 1"
      proof (rule div_nat_eqI)
        show "n * 1 \<le> length xs + n - 1" using pos by arith
        show "length xs + n - 1 < n * Suc 1" using False by arith
      qed
      then show ?thesis using False \<open>xs \<noteq> []\<close> "1.prems" by (simp add: batches_Cons batches_Nil)
    qed
  qed
qed

lemma nth_batches:
  "0 < n \<Longrightarrow> k < length (consecutive_batches n xs) \<Longrightarrow>
   consecutive_batches n xs ! k = take n (drop (n * k) xs)"
proof (induction n xs arbitrary: k rule: consecutive_batches.induct)
  case (1 n xs)
  show ?case
  proof (cases "xs = []")
    case True
    with "1.prems" show ?thesis by (simp add: batches_Nil)
  next
    case False
    show ?thesis
    proof (cases k)
      case 0
      with False "1.prems" show ?thesis by (simp add: batches_Cons)
    next
      case (Suc j)
      with False "1.prems" have "j < length (consecutive_batches n (drop n xs))"
        by (simp add: batches_Cons)
      with "1.IH" [of j] False "1.prems" have "consecutive_batches n (drop n xs) ! j = take n (drop (n * j) (drop n xs))"
        by simp
      with Suc False "1.prems" show ?thesis by (simp add: batches_Cons add.commute)
    qed
  qed
qed

lemma batches_250:
  assumes "length xs = 250"
  shows "map length (consecutive_batches 100 xs) = [100, 100, 50]"
proof -
  have a: "consecutive_batches 100 xs = take 100 xs # consecutive_batches 100 (drop 100 xs)"
    using assms by (intro batches_Cons) auto
  have b: "consecutive_batches 100 (drop 100 xs) =
           take 100 (drop 100 xs) # consecutive_batches 100 (drop 200 xs)"
    using assms batches_Cons [of 100 "drop 100 xs"] by auto
  have c: "consecutive_batches 100 (drop 200 xs) =
           take 100 (drop 200 xs) # consecutive_batches 100 (drop 300 xs)"
    using assms batches_Cons [of 100 "drop 200 xs"] by auto
  have d: "drop 300 xs = []"
    using assms by simp
  show ?thesis
    using assms by (simp add: a b c d batches_Nil)
qed

subsection \<open>The query loop\<close>

lemma foldl_push: "foldl (\<lambda>acc s. acc @ [f s]) acc xs = acc @ map f xs"
  by (induction xs arbitrary: acc) simp_all

lemma push_batch_records: "push_batch body acc = acc @ batch_records body"
  by (simp add: push_batch_def batch_records_def foldl_push split: option.splits)

lemma slice_batch: "slice names i (i + 100) = take 100 (drop i names)"
  by (simp add: slice_def drop_take)

lemma checkLive_loop_batches:
  "checkLive_loop cfg tok (\<lambda>k. Inr (bodies k)) names i acc s =
     (Inr (acc @ concat (map (\<lambda>k. batch_records (bodies k))
             [i div 100 ..< i div 100 + length (consecutive_batches 100 (drop i names))])),
      s\<lparr>requests := requests s @
          map (\<lambda>b. StreamsRequest b (twitch_client_id cfg) tok)
            (consecutive_batches 100 (drop i names))\<rparr>)"
proof (induction cfg tok "\<lambda>k. (Inr (bodies k) :: js_error + json_body)" names i acc s
    rule: checkLive_loop.induct)
  case (1 cfg tok names i acc s)
  show ?case
  proof (cases "i < length names")
    case True
    let ?s1 = "s\<lparr>requests := requests s @
        [StreamsRequest (slice names i (i + 100)) (twitch_client_id cfg) tok]\<rparr>"
    have ne: "drop i names \<noteq> []"
      using True by simp
    have cb: "consecutive_batches 100 (drop i names) =
        take 100 (drop i names) # consecutive_batches 100 (drop (i + 100) names)"
      using batches_Cons [of 100 "drop i names"] ne by (simp add: add.commute)
    have idx: "(i + 100) div 100 = Suc (i div 100)"
      by simp
    have ih: "checkLive_loop cfg tok (\<lambda>k. Inr (bodies k)) names (i + 100)
        (push_batch (bodies (i div 100)) acc) ?s1 =
      (Inr (push_batch (bodies (i div 100)) acc @ concat (map (\<lambda>k. batch_records (bodies k))
             [(i + 100) div 100 ..< (i + 100) div 100 +
                length (consecutive_batches 100 (drop (i + 100) names))])),
       ?s1\<lparr>requests := requests ?s1 @
          map (\<lambda>b. StreamsRequest b (twitch_client_id cfg) tok)
            (consecutive_batches 100 (drop (i + 100) names))\<rparr>)"
      using "1.hyps" [OF True refl refl refl] by simp
    have step: "checkLive_loop cfg tok (\<lambda>k. Inr (bodies k)) names i acc s =
        checkLive_loop cfg tok (\<lambda>k. Inr (bodies k)) names (i + 100)
          (push_batch (bodies (i div 100)) acc) ?s1"
      using True by (subst checkLive_loop.simps) (simp add: Let_def)
    show ?thesis
      unfolding step ih
      by (simp add: cb idx push_batch_records slice_batch upt_conv_Cons del: upt_Suc)
  next
    case False
    then show ?thesis
      by (subst checkLive_loop.simps) (simp add: batches_Nil)
  qed
qed

lemma getToken_example:
  "getToken example_config 1000 (Inr granted_body) initial_state = (Inr ''tok'', refreshed_state)"
  by (simp add: getToken_def cached_token_def truthy_string_def initial_state_def granted_body_def
      example_config_def refreshed_state_def Let_def)


lemma checkLive_batches:
  assumes "getToken cfg now token_reply s = (Inr tok, s1)"
  shows "checkLive cfg now token_reply (\<lambda>k. Inr (bodies k)) names s =
     (Inr (concat (map (\<lambda>k. batch_records (bodies k)) [0 ..< (length names + 99) div 100])),
      s1\<lparr>requests := requests s1 @
          map (\<lambda>b. StreamsRequest b (twitch_client_id cfg) tok) (consecutive_batches 100 names)\<rparr>)"
proof -
  have n: "length (consecutive_batches 100 names) = (length names + 99) div 100"
    by (simp add: length_batches)
  show ?thesis
    using assms by (simp add: checkLive_def checkLive_loop_batches n)
qed

text \<open>
  C2. When \<open>getToken\<close> gives a token and no request to the streams endpoint raises,
  \<open>checkLive\<close> sends exactly one request per batch, in order, where the batches are the
  roster cut into consecutive pieces: put together they are the roster again, each has
  at least one and at most 100 identifiers, the \<open>k\<close>-th is the 100 identifiers from
  position \<open>100 * k\<close> on, and there are \<open>\<lceil>length / 100\<rceil>\<close> of them. A roster of 250
  identifiers gives three requests of 100, 100 and 50 identifiers.
\<close>

theorem checkLive_one_query_per_batch:
  assumes "getToken cfg now token_reply s = (Inr tok, s1)"
  shows
    "requests (snd (checkLive cfg now token_reply (\<lambda>k. Inr (bodies k)) names s)) =
       requests s1 @
       map (\<lambda>b. StreamsRequest b (twitch_client_id cfg) tok) (consecutive_batches 100 names) \<and>
     concat (consecutive_batches 100 names) = names \<and>
     (\<forall>b \<in> set (consecutive_batches 100 names). b \<noteq> [] \<and> length b \<le> 100) \<and>
     length (consecutive_batches 100 names) = (length names + 99) div 100 \<and>
     (\<forall>k < length (consecutive_batches 100 names).
        consecutive_batches 100 names ! k = take 100 (drop (100 * k) names)) \<and>
     (length names = 250 \<longrightarrow> map length (consecutive_batches 100 names) = [100, 100, 50])"
proof (intro conjI ballI allI impI)
  show "requests (snd (checkLive cfg now token_reply (\<lambda>k. Inr (bodies k)) names s)) =
       requests s1 @
       map (\<lambda>b. StreamsRequest b (twitch_client_id cfg) tok) (consecutive_batches 100 names)"
    by (simp add: checkLive_batches [OF assms])
  show "concat (consecutive_batches 100 names) = names"
    by (simp add: concat_batches)
  show "length (consecutive_batches 100 names) = (length names + 99) div 100"
    by (simp add: length_batches)
next
  fix b
  assume "b \<in> set (consecutive_batches 100 names)"
  then show "b \<noteq> []" and "length b \<le> 100"
    using batches_sizes [of 100 b names] by simp_all
next
  fix k
  assume "k < length (consecutive_batches 100 names)"
  then show "consecutive_batches 100 names ! k = take 100 (drop (100 * k) names)"
    by (simp add: nth_batches)
next
  assume "length names = 250"
  then show "map length (consecutive_batches 100 names) = [100, 100, 50]"
    by (rule batches_250)
qed

theorem checkLive_one_query_per_batch_witness:
  "getToken example_config 1000 (Inr granted_body) initial_state = (Inr ''tok'', refreshed_state) \<and>
   length (replicate 250 ''someone'') = 250 \<and>
   requests (snd (checkLive example_config 1000 (Inr granted_body) (\<lambda>k. Inr (example_bodies k))
                   (replicate 250 ''someone'') initial_state)) =
     requests refreshed_state @
     map (\<lambda>b. StreamsRequest b (twitch_client_id example_config) ''tok'')
       (consecutive_batches 100 (replicate 250 ''someone'')) \<and>
   map length (consecutive_batches 100 (replicate 250 ''someone'')) = [100, 100, 50]"
proof -
  have len: "length (replicate 250 ''someone'') = 250"
    by simp
  from checkLive_one_query_per_batch [OF getToken_example, of example_bodies "replicate 250 ''someone''"]
    getToken_example len
  show ?thesis by blast
qed

subsection \<open>A request that raises\<close>







section \<open>A failed authentication\<close>

lemma checkLive_no_access_token:
  "cached_token (tokenCache s) now = None \<Longrightarrow> truthy_string (access_token body) = None \<Longrightarrow>
   checkLive cfg now (Inr body) replies names s =
     (Inl (Error (''Failed to fetch Twitch token: '' @ json_text body)),
      s\<lparr>requests := requests s @ [TokenRequest (twitch_client_id cfg) (twitch_client_secret cfg)]\<rparr>)"
  by (simp add: checkLive_def getToken_no_access_token)

lemma catch_error_fields:
  "outputFile (catch_error e s) = outputFile s" "requests (catch_error e s) = requests s"
  "exitCode (catch_error e s) = 1"
  by (cases e; simp)+

text \<open>
  C4. When no unexpired token is cached and the body the token endpoint answers has no
  (or an empty) access token, \<open>getToken\<close> raises the error whose message is
  \<open>Failed to fetch Twitch token: \<close> followed by the body as \<open>JSON.stringify\<close> prints it.
  A run of \<open>main\<close> then leaves \<open>live.json\<close> as it was and sends no request to the streams
  endpoint; with a non-empty roster it ends after the one request to the token endpoint
  with the error printed and the exit code 1.
\<close>

theorem missing_access_token_aborts:
  assumes "cached_token (tokenCache s) (run_now r) = None"
    and "run_token_reply r = Inr body"
    and "truthy_string (access_token body) = None"
  shows
    "getToken cfg (run_now r) (run_token_reply r) s =
       (Inl (Error (''Failed to fetch Twitch token: '' @ json_text body)),
        s\<lparr>requests := requests s @ [TokenRequest (twitch_client_id cfg) (twitch_client_secret cfg)]\<rparr>) \<and>
     outputFile (main cfg r s) = outputFile s \<and>
     filter is_streams_request (requests (main cfg r s)) = filter is_streams_request (requests s) \<and>
     (\<forall>names. loadUsernames (run_sheet r) = Inr names \<and> names \<noteq> [] \<longrightarrow>
        main cfg r s =
          s\<lparr>requests := requests s @ [TokenRequest (twitch_client_id cfg) (twitch_client_secret cfg)],
            console := console s @ [ErrorMessage (''Failed to fetch Twitch token: '' @ json_text body)],
            exitCode := 1\<rparr>)"
proof (intro conjI allI impI)
  show "getToken cfg (run_now r) (run_token_reply r) s =
       (Inl (Error (''Failed to fetch Twitch token: '' @ json_text body)),
        s\<lparr>requests := requests s @ [TokenRequest (twitch_client_id cfg) (twitch_client_secret cfg)]\<rparr>)"
    using assms by (simp add: getToken_no_access_token)
next
  fix names
  assume "loadUsernames (run_sheet r) = Inr names \<and> names \<noteq> []"
  then show "main cfg r s =
          s\<lparr>requests := requests s @ [TokenRequest (twitch_client_id cfg) (twitch_client_secret cfg)],
            console := console s @ [ErrorMessage (''Failed to fetch Twitch token: '' @ json_text body)],
            exitCode := 1\<rparr>"
    using assms by (simp add: main_def checkLive_no_access_token)
next
  show "outputFile (main cfg r s) = outputFile s"
    using assms
    by (simp add: main_def checkLive_no_access_token catch_error_fields split: sum.splits)
next
  show "filter is_streams_request (requests (main cfg r s)) = filter is_streams_request (requests s)"
    using assms
    by (simp add: main_def checkLive_no_access_token catch_error_fields split: sum.splits)
qed

theorem missing_access_token_aborts_witness:
  "cached_token (tokenCache (initial_state\<lparr>outputFile := Some previous_snapshot\<rparr>)) (run_now denied_run) = None \<and>
   run_token_reply denied_run = Inr denied_body \<and>
   truthy_string (access_token denied_body) = None \<and>
   loadUsernames (run_sheet denied_run) = Inr [''alice''] \<and>
   main example_config denied_run (initial_state\<lparr>outputFile := Some previous_snapshot\<rparr>) =
     initial_state
       \<lparr>outputFile := Some previous_snapshot,
        requests := [TokenRequest ''abc'' ''xyz''],
        console := [ErrorMessage ''Failed to fetch Twitch token: {}''],
        exitCode := 1\<rparr>"
proof -
  let ?s = "initial_state\<lparr>outputFile := Some previous_snapshot\<rparr>"
  have c: "cached_token (tokenCache ?s) (run_now denied_run) = None"
    by (simp add: cached_token_def initial_state_def truthy_string_def)
  have r: "run_token_reply denied_run = Inr denied_body"
    by (simp add: denied_run_def)
  have t: "truthy_string (access_token denied_body) = None"
    by (simp add: denied_body_def truthy_string_def)
  have l: "loadUsernames (run_sheet denied_run) = Inr [''alice'']"
    by (simp add: denied_run_def roster_eval)
  from missing_access_token_aborts [OF c r t, of example_config] l
  have "main example_config denied_run ?s =
          ?s\<lparr>requests := requests ?s @
                [TokenRequest (twitch_client_id example_config) (twitch_client_secret example_config)],
            console := console ?s @ [ErrorMessage (''Failed to fetch Twitch token: '' @ json_text denied_body)],
            exitCode := 1\<rparr>"
    by simp
  then show ?thesis
    using c r t l by (simp add: initial_state_def example_config_def denied_body_def)
qed

section \<open>Properties of the Snapshot Writer\<close>

text \<open>
  C8. \<open>writeJSON\<close> returns, and stores as the content of \<open>live.json\<close>, the snapshot made
  of the current time and of the list of records as it was given. Called twice on the
  same list, it gives two snapshots that differ in their timestamp only. When the write
  raises, the error is passed on.
\<close>

theorem writeJSON_snapshot:
  "writeJSON t1 None liveList s =
     (Inr \<lparr>timestamp = t1, live = liveList\<rparr>,
      s\<lparr>outputFile := Some \<lparr>timestamp = t1, live = liveList\<rparr>,
        console := console s @ [WroteFile (length liveList)]\<rparr>) \<and>
   (\<exists>out1 sa out2 sb.
      writeJSON t1 None liveList s = (Inr out1, sa) \<and>
      writeJSON t2 None liveList sa = (Inr out2, sb) \<and>
      live out1 = liveList \<and> live out2 = liveList \<and>
      timestamp out1 = t1 \<and> timestamp out2 = t2 \<and>
      out2 = out1\<lparr>timestamp := t2\<rparr> \<and>
      outputFile sa = Some out1 \<and> outputFile sb = Some out2) \<and>
   writeJSON t1 (Some e) liveList s = (Inl e, s)"
  by (simp add: writeJSON_def Let_def)

theorem writeJSON_snapshot_witness:
  "writeJSON ''2024-05-01T12:00:00.000Z'' None [live_user alice_entry, live_user alice_entry]
     (initial_state\<lparr>outputFile := Some previous_snapshot\<rparr>) =
     (Inr \<lparr>timestamp = ''2024-05-01T12:00:00.000Z'', live = [live_user alice_entry, live_user alice_entry]\<rparr>,
      initial_state
        \<lparr>outputFile := Some \<lparr>timestamp = ''2024-05-01T12:00:00.000Z'',
                               live = [live_user alice_entry, live_user alice_entry]\<rparr>,
         console := [WroteFile 2]\<rparr>)"
  using writeJSON_snapshot [of "''2024-05-01T12:00:00.000Z''" "[live_user alice_entry, live_user alice_entry]"
      "initial_state\<lparr>outputFile := Some previous_snapshot\<rparr>"]
  by (simp add: initial_state_def)

end
